theory Spec2Isabelle
  imports Complex_Main "HOL-Library.Multiset"
begin

section \<open>Rotation-enhanced cover matching (app\_3.py)\<close>

text \<open>
  The development embeds \<^verbatim>\<open>detect_cartoon_book_simple\<close> (lines 376--400) and
  \<^verbatim>\<open>identify_book_with_rotation_enhanced\<close> (lines 490--681) of \<^verbatim>\<open>src/app_3.py\<close>.

  Numbers: the source computes with IEEE floating point (numpy \<^verbatim>\<open>float32\<close> arrays,
  Python \<^verbatim>\<open>float\<close> scalars). Here a score is a \<^typ>\<open>real\<close> and every arithmetic
  operation is exact: no rounding, no overflow, no NaN apart from the one case written
  out in \<open>np_mean\<close>. Comparisons, branch order and the shape of each formula are those
  of the source; statements whose truth depends on rounding are outside this model.
\<close>

subsection \<open>Exceptions and the numpy primitives the source calls\<close>

datatype py_exception =
    ValueError | ZeroDivisionError | IndexError | KeyError | OperationalError
  | UnidentifiedImageError

type_synonym embedding = "real list"

text \<open>\<^verbatim>\<open>np.dot(a, b)\<close> on two 1-D arrays: raises \<^verbatim>\<open>ValueError\<close> (shapes not aligned)
  unless both have the same length.\<close>

definition np_dot :: "embedding \<Rightarrow> embedding \<Rightarrow> py_exception + real" where
  "np_dot a b =
     (if length a \<noteq> length b then Inl ValueError
      else Inr (sum_list (map (\<lambda>(x, y). x * y) (zip a b))))"

text \<open>\<^verbatim>\<open>np.linalg.norm(v)\<close> on a 1-D array: the Euclidean norm.\<close>

definition np_linalg_norm :: "embedding \<Rightarrow> real" where
  "np_linalg_norm v = sqrt (sum_list (map (\<lambda>x. x * x) v))"

text \<open>\<^verbatim>\<open>a - b\<close> on two 1-D arrays. In the source it is evaluated only after
  \<^verbatim>\<open>np.dot(a, b)\<close> has succeeded, that is on arrays of one length.\<close>

definition np_subtract :: "embedding \<Rightarrow> embedding \<Rightarrow> embedding" where
  "np_subtract a b = map (\<lambda>(x, y). x - y) (zip a b)"

text \<open>Python's \<^verbatim>\<open>x / y\<close> on floats raises \<^verbatim>\<open>ZeroDivisionError\<close> for a zero divisor.\<close>

definition py_truediv :: "real \<Rightarrow> real \<Rightarrow> py_exception + real" where
  "py_truediv x y = (if y = 0 then Inl ZeroDivisionError else Inr (x / y))"

subsection \<open>Similarity score (lines 560--577)\<close>

text \<open>
  \<^verbatim>\<open>dot = float(np.dot(emb, db_emb))\<close>,
  \<^verbatim>\<open>norm = float(np.linalg.norm(emb) * np.linalg.norm(db_emb))\<close>,
  \<^verbatim>\<open>dot / norm if norm else 0.0\<close>: the same three lines open both branches.
\<close>

definition cosine_similarity :: "embedding \<Rightarrow> embedding \<Rightarrow> py_exception + real" where
  "cosine_similarity emb db_emb =
     (case np_dot emb db_emb of
        Inl e \<Rightarrow> Inl e
      | Inr dot \<Rightarrow>
          (let norm = np_linalg_norm emb * np_linalg_norm db_emb
           in if norm \<noteq> 0 then py_truediv dot norm else Inr 0))"

definition similarity :: "bool \<Rightarrow> embedding \<Rightarrow> embedding \<Rightarrow> py_exception + real" where
  "similarity is_cartoon emb db_emb =
     (if is_cartoon then
        (case cosine_similarity emb db_emb of
           Inl e \<Rightarrow> Inl e
         | Inr cosine_sim \<Rightarrow>
             (let euclidean_dist = np_linalg_norm (np_subtract emb db_emb)
              in case py_truediv 1 (1 + euclidean_dist) of
                   Inl e \<Rightarrow> Inl e
                 | Inr euclidean_sim \<Rightarrow> Inr (7 / 10 * cosine_sim + 3 / 10 * euclidean_sim)))
      else cosine_similarity emb db_emb)"

subsection \<open>Style detection: \<^verbatim>\<open>detect_cartoon_book_simple\<close> (lines 376--400)\<close>

text \<open>
  \<^verbatim>\<open>np.array(pil_image)\<close> is a 2-D array for a single-band image (modes L, P, 1, ...)
  and an H x W x C array otherwise. A 3-D array is kept by channel: plane \<open>k\<close> lists the
  values of \<^verbatim>\<open>img_array[:, :, k]\<close>. Indexing a 2-D array with three subscripts, or a
  channel that is not there, raises \<^verbatim>\<open>IndexError\<close>.
\<close>

datatype img_array = Array2D "nat list" | Array3D "nat list list"

fun channel :: "img_array \<Rightarrow> nat \<Rightarrow> py_exception + nat list" where
  "channel (Array2D _) k = Inl IndexError"
| "channel (Array3D planes) k = (if k < length planes then Inr (planes ! k) else Inl IndexError)"

text \<open>\<^verbatim>\<open>np.mean\<close> of an empty slice is NaN (a warning, not an exception): \<open>None\<close> here.\<close>

definition np_mean :: "nat list \<Rightarrow> real option" where
  "np_mean xs = (if xs = [] then None else Some (real (sum_list xs) / real (length xs)))"

text \<open>\<^verbatim>\<open>np.var([r, g, b])\<close>: the population variance; NaN if an entry is NaN.\<close>

definition np_var :: "real option list \<Rightarrow> real option" where
  "np_var ms =
     (if None \<in> set ms then None
      else (let xs = map the ms; n = real (length xs); m = sum_list xs / n
            in Some (sum_list (map (\<lambda>x. (x - m) * (x - m)) xs) / n)))"

text \<open>The body of the \<^verbatim>\<open>try\<close> block; \<^verbatim>\<open>NaN > 500\<close> is false.\<close>

definition detect_body :: "img_array \<Rightarrow> py_exception + bool" where
  "detect_body img_array =
     (case channel img_array 0 of
        Inl e \<Rightarrow> Inl e
      | Inr c0 \<Rightarrow>
          (case channel img_array 1 of
             Inl e \<Rightarrow> Inl e
           | Inr c1 \<Rightarrow>
               (case channel img_array 2 of
                  Inl e \<Rightarrow> Inl e
                | Inr c2 \<Rightarrow>
                    (let r_mean = np_mean c0; g_mean = np_mean c1; b_mean = np_mean c2;
                         color_variance = np_var [r_mean, g_mean, b_mean];
                         is_cartoon = (case color_variance of None \<Rightarrow> False | Some v \<Rightarrow> v > 500)
                     in Inr is_cartoon))))"

text \<open>\<^verbatim>\<open>except Exception as e: ... return False\<close>.\<close>

definition detect_cartoon_book_simple :: "img_array \<Rightarrow> py_exception + bool" where
  "detect_cartoon_book_simple pil_image =
     (case detect_body pil_image of Inl e \<Rightarrow> Inr False | Inr is_cartoon \<Rightarrow> Inr is_cartoon)"

subsection \<open>The rotation-by-candidate scan (lines 550--582)\<close>

record best =
  book_id :: "int option"
  score :: real
  rotation :: nat

type_synonym db_item = "int \<times> embedding"

definition angles :: "nat list" where
  "angles = [0, 90, 180, 270]"

definition initial_best :: best where
  "initial_best = \<lparr>book_id = None, score = - 1, rotation = 0\<rparr>"

text \<open>\<^verbatim>\<open>if score > best["score"]: best.update({...})\<close>.\<close>

definition update_best :: "best \<Rightarrow> nat \<Rightarrow> int \<Rightarrow> real \<Rightarrow> best" where
  "update_best b angle bid s =
     (if s > score b then \<lparr>book_id = Some bid, score = s, rotation = angle\<rparr> else b)"

text \<open>The inner loop \<^verbatim>\<open>for book_id, db_emb in db_items\<close>; an exception leaves the loop.\<close>

fun scan_items ::
  "bool \<Rightarrow> nat \<Rightarrow> embedding \<Rightarrow> db_item list \<Rightarrow> best \<times> real list \<Rightarrow> py_exception + best \<times> real list"
where
  "scan_items is_cartoon angle emb [] st = Inr st"
| "scan_items is_cartoon angle emb ((bid, db_emb) # rest) (b, all_scores) =
     (case similarity is_cartoon emb db_emb of
        Inl e \<Rightarrow> Inl e
      | Inr s \<Rightarrow>
          scan_items is_cartoon angle emb rest (update_best b angle bid s, all_scores @ [s]))"

text \<open>The outer loop \<^verbatim>\<open>for angle in (0, 90, 180, 270)\<close>. \<open>emb_of angle\<close> is the CLIP
  embedding of the query image rotated by \<open>angle\<close> (the model is external).\<close>

fun scan_angles ::
  "bool \<Rightarrow> (nat \<Rightarrow> embedding) \<Rightarrow> db_item list \<Rightarrow> nat list \<Rightarrow> best \<times> real list
     \<Rightarrow> py_exception + best \<times> real list"
where
  "scan_angles is_cartoon emb_of items [] st = Inr st"
| "scan_angles is_cartoon emb_of items (angle # rest) st =
     (case scan_items is_cartoon angle (emb_of angle) items st of
        Inl e \<Rightarrow> Inl e
      | Inr st' \<Rightarrow> scan_angles is_cartoon emb_of items rest st')"

definition scan ::
  "bool \<Rightarrow> (nat \<Rightarrow> embedding) \<Rightarrow> db_item list \<Rightarrow> py_exception + best \<times> real list" where
  "scan is_cartoon emb_of items = scan_angles is_cartoon emb_of items angles (initial_best, [])"

subsection \<open>Score gap and classification (lines 539--547 and 587--610)\<close>

text \<open>\<^verbatim>\<open>max(all_scores)\<close> on a non-empty list.\<close>

definition py_max :: "real list \<Rightarrow> real" where
  "py_max xs = fold max (tl xs) (hd xs)"

text \<open>
  \<^verbatim>\<open>second_max = sorted(all_scores, reverse=True)[1] if len(all_scores) > 1 else 0\<close>,
  \<^verbatim>\<open>score_gap = max_score - second_max\<close>, inside \<^verbatim>\<open>if all_scores:\<close>. On an empty list
  the variable is never bound: \<open>None\<close>.
\<close>

definition score_gap :: "real list \<Rightarrow> real option" where
  "score_gap all_scores =
     (if all_scores \<noteq> [] then
        (let max_score = py_max all_scores;
             second_max = (if length all_scores > 1 then rev (sort all_scores) ! 1 else 0)
         in Some (max_score - second_max))
      else None)"

definition thresholds :: "bool \<Rightarrow> real \<times> real \<times> real" where
  "thresholds is_cartoon = (if is_cartoon then (0.75, 0.60, 0.12) else (0.70, 0.55, 0.08))"

text \<open>Truth value of \<^verbatim>\<open>best["book_id"]\<close>: \<^verbatim>\<open>None\<close> and the integer 0 are false.\<close>

fun py_truthy :: "int option \<Rightarrow> bool" where
  "py_truthy None = False"
| "py_truthy (Some i) = (i \<noteq> 0)"

datatype result_type = high_confidence | medium_confidence | low_confidence_similar | unknown_book

definition classify :: "bool \<Rightarrow> best \<Rightarrow> real list \<Rightarrow> result_type" where
  "classify is_cartoon b all_scores =
     (case thresholds is_cartoon of (HIGH, LOW, MIN_GAP) \<Rightarrow>
        (case score_gap all_scores of
           Some gap \<Rightarrow>
             if py_truthy (book_id b) \<and> score b \<ge> HIGH \<and> gap \<ge> MIN_GAP then high_confidence
             else if py_truthy (book_id b) \<and> score b \<ge> LOW \<and> gap \<ge> MIN_GAP then medium_confidence
             else if py_truthy (book_id b) \<and> score b \<ge> LOW then low_confidence_similar
             else unknown_book
         | None \<Rightarrow> unknown_book))"

subsection \<open>The response (lines 612--673) and the whole request (lines 490--681)\<close>

text \<open>Python's \<^verbatim>\<open>round(x, 2)\<close>: to the nearest hundredth, ties to the even one.\<close>

definition py_round2 :: "real \<Rightarrow> real" where
  "py_round2 x =
     (let y = x * 100; f = \<lfloor>y\<rfloor>; d = y - of_int f
      in of_int (if d < 1 / 2 then f else if d > 1 / 2 then f + 1
                 else if even f then f else f + 1) / 100)"

record book_row =
  title :: string
  isbn :: "string option"
  url :: "string option"

record match_info =
  r_id :: "int option"
  r_title :: string
  r_isbn :: string
  r_url :: string
  r_similarity_score :: real
  r_rotation_angle :: nat
  r_score_gap :: real
  r_cartoon_detected :: bool

datatype confidence_level = level_high | level_medium

datatype response =
    UnknownBook real bool
  | UncertainMatch match_info real
  | ConfirmedMatch match_info confidence_level

text \<open>
  The error results \<^verbatim>\<open>({}, message)\<close> of the function, one constructor per message:
  CLIP model not initialised (line 496), invalid file object (508), no book records
  in the database (536), no matching book found (673), and the message of the
  \<^verbatim>\<open>except Exception\<close> handler, which carries the exception (678).
\<close>

datatype identify_error =
    ClipNotInitialised
  | InvalidFileObject
  | NoBookRecords
  | NoMatchingBook
  | IdentifyFailed py_exception

text \<open>\<^verbatim>\<open>SELECT title, isbn, url FROM books WHERE id = %s\<close> and \<^verbatim>\<open>fetchone()\<close>;
  a NULL parameter matches no row.\<close>

fun fetch_book :: "(int \<Rightarrow> book_row option) \<Rightarrow> int option \<Rightarrow> book_row option" where
  "fetch_book books None = None"
| "fetch_book books (Some i) = books i"

text \<open>\<^verbatim>\<open>row['isbn'] or ""\<close>.\<close>

fun or_empty :: "string option \<Rightarrow> string" where
  "or_empty None = []"
| "or_empty (Some s) = s"

definition make_info :: "bool \<Rightarrow> best \<Rightarrow> real list \<Rightarrow> book_row \<Rightarrow> match_info" where
  "make_info is_cartoon b all_scores row =
     \<lparr>r_id = book_id b, r_title = title row, r_isbn = or_empty (isbn row),
      r_url = or_empty (url row), r_similarity_score = py_round2 (score b * 100),
      r_rotation_angle = rotation b,
      r_score_gap = (case score_gap all_scores of Some g \<Rightarrow> py_round2 (g * 100) | None \<Rightarrow> 0),
      r_cartoon_detected = is_cartoon\<rparr>"

definition build_result ::
  "bool \<Rightarrow> best \<Rightarrow> real list \<Rightarrow> (int \<Rightarrow> book_row option) \<Rightarrow> identify_error + response" where
  "build_result is_cartoon b all_scores books =
     (let result_type = classify is_cartoon b all_scores
      in if result_type = unknown_book then
           Inr (UnknownBook (py_round2 (score b * 100)) is_cartoon)
         else if result_type = low_confidence_similar then
           (case fetch_book books (book_id b) of
              Some row \<Rightarrow>
                Inr (UncertainMatch (make_info is_cartoon b all_scores row)
                       (py_round2 (snd (snd (thresholds is_cartoon)) * 100)))
            | None \<Rightarrow> Inl NoMatchingBook)
         else
           (case fetch_book books (book_id b) of
              Some row \<Rightarrow>
                Inr (ConfirmedMatch (make_info is_cartoon b all_scores row)
                       (if result_type = high_confidence then level_high else level_medium))
            | None \<Rightarrow> Inl NoMatchingBook))"

text \<open>
  The connection pool is built with \<^verbatim>\<open>cursor_factory=RealDictCursor\<close> (lines 78 and
  100), so every row a cursor returns is a dictionary keyed by column name. Subscripting
  such a row by a column name that is not there, or by a position, raises
  \<^verbatim>\<open>KeyError\<close>.
\<close>

datatype row_key = ByName string | ByPosition nat

definition real_dict_getitem :: "(string \<Rightarrow> 'v option) \<Rightarrow> row_key \<Rightarrow> py_exception + 'v" where
  "real_dict_getitem row k =
     (case k of
        ByName c \<Rightarrow> (case row c of None \<Rightarrow> Inl KeyError | Some v \<Rightarrow> Inr v)
      | ByPosition i \<Rightarrow> Inl KeyError)"

text \<open>
  \<^verbatim>\<open>ensure_table()\<close> (lines 254--358): \<^verbatim>\<open>get_connection()\<close> raises when the database
  cannot be reached; then \<^verbatim>\<open>SELECT EXISTS (...)\<close> returns one row with the column
  \<^verbatim>\<open>exists\<close>, and line 271 reads it as \<^verbatim>\<open>cursor.fetchone()[0]\<close>. The handler of
  lines 350--355 rolls back and raises the exception again. The schema updates of lines
  273--348 come after that subscript; they stand here as the plain return.
\<close>

definition ensure_table :: "bool \<Rightarrow> bool \<Rightarrow> py_exception + unit" where
  "ensure_table reachable books_table_exists =
     (if \<not> reachable then Inl OperationalError
      else
        (case real_dict_getitem [''exists'' \<mapsto> books_table_exists] (ByPosition 0) of
           Inl e \<Rightarrow> Inl e
         | Inr table_exists \<Rightarrow> Inr ()))"

text \<open>
  What one request meets outside the function: whether the CLIP model is loaded, whether
  the database can be reached, whether the \<^verbatim>\<open>books\<close> table exists, whether the upload
  has a \<^verbatim>\<open>read\<close> method, the decoded RGB image (or the exception of \<^verbatim>\<open>Image.open\<close>),
  the embedding of each rotation, the rows of \<^verbatim>\<open>cover_embeddings\<close> in the order the
  store returns them, the exception (if any) that \<^verbatim>\<open>np.frombuffer\<close> raises on a
  stored \<^verbatim>\<open>vector\<close> that is NULL or not a whole number of \<^verbatim>\<open>float32\<close> values
  (lines 524--531), and the \<^verbatim>\<open>books\<close> table. The database is reachable for the
  whole request or not at all.
\<close>

record request =
  clip_loaded :: bool
  db_reachable :: bool
  books_table_exists :: bool
  has_read :: bool
  decode_error :: "py_exception option"
  pil_img :: "py_exception + img_array"
  emb_of :: "nat \<Rightarrow> embedding"
  db_items :: "db_item list"
  books :: "int \<Rightarrow> book_row option"

text \<open>
  Lines 500--673, the part of the \<^verbatim>\<open>try\<close> block after \<^verbatim>\<open>ensure_table()\<close>: read and
  decode the upload, detect the style, open a connection (line 517), load the store,
  return at once on an empty store (lines 535--536), scan, classify, build the result.
\<close>

definition identify_after_ensure_table :: "request \<Rightarrow> identify_error + response" where
  "identify_after_ensure_table r =
     (if \<not> has_read r then Inl InvalidFileObject
      else
        (case pil_img r of
           Inl e \<Rightarrow> Inl (IdentifyFailed e)
         | Inr img \<Rightarrow>
             (case detect_cartoon_book_simple img of
                Inl e \<Rightarrow> Inl (IdentifyFailed e)
              | Inr is_cartoon \<Rightarrow>
                  if \<not> db_reachable r then Inl (IdentifyFailed OperationalError)
                  else
                    (case decode_error r of
                       Some e \<Rightarrow> Inl (IdentifyFailed e)
                     | None \<Rightarrow>
                         if db_items r = [] then Inl NoBookRecords
                         else
                           (case scan is_cartoon (emb_of r) (db_items r) of
                              Inl e \<Rightarrow> Inl (IdentifyFailed e)
                            | Inr (b, all_scores) \<Rightarrow>
                                build_result is_cartoon b all_scores (books r))))))"

text \<open>
  The whole function: the CLIP check (lines 495--496), \<^verbatim>\<open>ensure_table()\<close> (line 498),
  then the rest; \<^verbatim>\<open>except Exception as e\<close> (lines 675--678) turns every exception
  into an error result.
\<close>

definition identify_book_with_rotation_enhanced :: "request \<Rightarrow> identify_error + response" where
  "identify_book_with_rotation_enhanced r =
     (if \<not> clip_loaded r then Inl ClipNotInitialised
      else
        (case ensure_table (db_reachable r) (books_table_exists r) of
           Inl e \<Rightarrow> Inl (IdentifyFailed e)
         | Inr u \<Rightarrow> identify_after_ensure_table r))"

subsection \<open>The specification's vocabulary\<close>

text \<open>The threshold table of the specification.\<close>

definition HIGH :: "bool \<Rightarrow> real" where
  "HIGH cartoon = (if cartoon then 0.75 else 0.70)"

definition LOW :: "bool \<Rightarrow> real" where
  "LOW cartoon = (if cartoon then 0.60 else 0.55)"

definition MIN_GAP :: "bool \<Rightarrow> real" where
  "MIN_GAP cartoon = (if cartoon then 0.12 else 0.08)"

text \<open>The five classification rules of the specification, first match wins.\<close>

definition spec_classification :: "bool \<Rightarrow> bool \<Rightarrow> real \<Rightarrow> real \<Rightarrow> result_type" where
  "spec_classification cartoon no_candidates s g =
     (if no_candidates then unknown_book
      else if s \<ge> HIGH cartoon \<and> g \<ge> MIN_GAP cartoon then high_confidence
      else if s \<ge> LOW cartoon \<and> g \<ge> MIN_GAP cartoon then medium_confidence
      else if s \<ge> LOW cartoon then low_confidence_similar
      else unknown_book)"

text \<open>Dot product, Euclidean norm and L2 distance, by index.\<close>

definition spec_dot :: "embedding \<Rightarrow> embedding \<Rightarrow> real" where
  "spec_dot a b = (\<Sum>i<length a. a ! i * b ! i)"

definition spec_norm :: "embedding \<Rightarrow> real" where
  "spec_norm a = sqrt (\<Sum>i<length a. (a ! i)\<^sup>2)"

definition spec_euclidean_distance :: "embedding \<Rightarrow> embedding \<Rightarrow> real" where
  "spec_euclidean_distance a b = sqrt (\<Sum>i<length a. (a ! i - b ! i)\<^sup>2)"

definition spec_cosine :: "embedding \<Rightarrow> embedding \<Rightarrow> real" where
  "spec_cosine a b =
     (if spec_norm a = 0 \<or> spec_norm b = 0 then 0
      else spec_dot a b / (spec_norm a * spec_norm b))"

definition spec_cartoon_score :: "embedding \<Rightarrow> embedding \<Rightarrow> real" where
  "spec_cartoon_score a b =
     0.7 * spec_cosine a b + 0.3 * (1 / (1 + spec_euclidean_distance a b))"

text \<open>The pairs in the order the scan meets them: rotation first, then store order.\<close>

definition scan_order :: "db_item list \<Rightarrow> (nat \<times> int \<times> embedding) list" where
  "scan_order items =
     concat (map (\<lambda>angle. map (\<lambda>(bid, db_emb). (angle, bid, db_emb)) items) angles)"


text \<open>The mean of one colour channel.\<close>

definition channel_mean :: "nat list \<Rightarrow> real" where
  "channel_mean xs = real (sum_list xs) / real (length xs)"

text \<open>The variance of three numbers.\<close>

definition variance3 :: "real \<Rightarrow> real \<Rightarrow> real \<Rightarrow> real" where
  "variance3 r g b =
     (let m = (r + g + b) / 3 in ((r - m)\<^sup>2 + (g - m)\<^sup>2 + (b - m)\<^sup>2) / 3)"

subsection \<open>The scan as one pass over scored pairs\<close>

text \<open>The running best after a list of scored pairs \<open>(angle, book_id, score)\<close>,
  updated as the loop body does.\<close>

fun track :: "best \<Rightarrow> (nat \<times> int \<times> real) list \<Rightarrow> best" where
  "track b [] = b"
| "track b ((angle, bid, s) # rest) = track (update_best b angle bid s) rest"

definition pairs_of :: "nat list \<Rightarrow> db_item list \<Rightarrow> (nat \<times> int \<times> embedding) list" where
  "pairs_of as items = concat (map (\<lambda>angle. map (\<lambda>(bid, db_emb). (angle, bid, db_emb)) items) as)"

definition scored :: "(nat \<times> int \<times> embedding) list \<Rightarrow> real list \<Rightarrow> (nat \<times> int \<times> real) list" where
  "scored ps ss = map (\<lambda>((angle, bid, db_emb), s). (angle, bid, s)) (zip ps ss)"

subsection \<open>Concrete inputs\<close>

text \<open>A query whose embedding is the same at every rotation.\<close>

definition same_embedding :: "embedding \<Rightarrow> nat \<Rightarrow> embedding" where
  "same_embedding v angle = v"

text \<open>A one-dimensional query that points up at rotation \<open>a\<close> and down at the others.\<close>

definition upright_at :: "nat \<Rightarrow> nat \<Rightarrow> embedding" where
  "upright_at a angle = (if angle = a then [1] else [- 1])"

text \<open>One-pixel RGB images and three requests built on them.\<close>

definition grey_pixel :: img_array where
  "grey_pixel = Array3D [[128], [128], [128]]"

definition red_pixel :: img_array where
  "red_pixel = Array3D [[255], [0], [0]]"

definition empty_store_request :: request where
  "empty_store_request =
     \<lparr>clip_loaded = True, db_reachable = True, books_table_exists = True, has_read = True,
      decode_error = None, pil_img = Inr grey_pixel, emb_of = same_embedding [1], db_items = [],
      books = (\<lambda>i. None)\<rparr>"

definition empty_store_cartoon_request :: request where
  "empty_store_cartoon_request =
     \<lparr>clip_loaded = True, db_reachable = True, books_table_exists = True, has_read = True,
      decode_error = None, pil_img = Inr red_pixel, emb_of = same_embedding [1], db_items = [],
      books = (\<lambda>i. None)\<rparr>"




section \<open>Properties of the similarity score\<close>

lemma sum_list_zip_index:
  "length a = length b \<Longrightarrow> sum_list (map (\<lambda>(x, y). f x y) (zip a b)) = (\<Sum>i<length a. f (a ! i) (b ! i))"
proof (induction a b rule: list_induct2)
  case Nil
  then show ?case by simp
next
  case (Cons x xs y ys)
  then show ?case by (simp add: sum.lessThan_Suc_shift del: sum.lessThan_Suc)
qed

lemma sum_list_index: "sum_list (map f xs) = (\<Sum>i<length xs. f (xs ! i))"
  by (induction xs) (simp_all add: sum.lessThan_Suc_shift del: sum.lessThan_Suc)

lemma np_dot_spec: "length a = length b \<Longrightarrow> np_dot a b = Inr (spec_dot a b)"
  by (simp add: np_dot_def spec_dot_def sum_list_zip_index)

lemma np_linalg_norm_spec: "np_linalg_norm v = spec_norm v"
  by (simp add: np_linalg_norm_def spec_norm_def sum_list_index power2_eq_square)

lemma np_distance_spec:
  "length a = length b \<Longrightarrow> np_linalg_norm (np_subtract a b) = spec_euclidean_distance a b"
  unfolding np_linalg_norm_def np_subtract_def spec_euclidean_distance_def
  by (simp add: o_def case_prod_unfold sum_list_zip_index[where f="\<lambda>x y. (x - y) * (x - y)", simplified case_prod_unfold] power2_eq_square)

lemma spec_norm_nonneg: "0 \<le> spec_norm v"
  by (simp add: spec_norm_def sum_nonneg)

lemma spec_distance_nonneg: "0 \<le> spec_euclidean_distance a b"
  by (simp add: spec_euclidean_distance_def sum_nonneg)

lemma cosine_similarity_spec:
  "length a = length b \<Longrightarrow> cosine_similarity a b = Inr (spec_cosine a b)"
  by (auto simp: cosine_similarity_def np_dot_spec np_linalg_norm_spec spec_cosine_def py_truediv_def Let_def)

text \<open>
  C5. Under the cartoon profile, two embeddings of one dimension score
  \<open>0.7 * cosine + 0.3 * (1 / (1 + distance))\<close>, where the distance is the L2 distance
  and the cosine term is 0 when either norm is zero.
\<close>

theorem cartoon_score_formula:
  "length emb = length db_emb \<Longrightarrow> similarity True emb db_emb = Inr (spec_cartoon_score emb db_emb)"
  using spec_distance_nonneg[of emb db_emb]
  by (simp add: similarity_def cosine_similarity_spec np_distance_spec py_truediv_def Let_def spec_cartoon_score_def)

theorem cartoon_score_formula_witness:
  "length [1::real] = length [1::real] \<and> similarity True [1] [1] = Inr 1"
  using cartoon_score_formula[of "[1]" "[1]"]
  by (simp add: spec_cartoon_score_def spec_cosine_def spec_norm_def spec_dot_def
      spec_euclidean_distance_def)

lemma np_linalg_norm_nonneg: "0 \<le> np_linalg_norm v"
  by (auto simp: np_linalg_norm_def intro!: sum_list_nonneg)

lemma similarity_no_zero_division: "similarity c emb db_emb \<noteq> Inl ZeroDivisionError"
  using np_linalg_norm_nonneg[of "np_subtract emb db_emb"]
  by (auto simp: similarity_def cosine_similarity_def np_dot_def py_truediv_def Let_def
      split: sum.splits if_splits)

text \<open>
  C6. Under the standard profile, when either embedding has Euclidean norm zero the
  score is 0: the guard \<^verbatim>\<open>if norm\<close> skips the division, so the result is a value and
  not the \<^verbatim>\<open>ZeroDivisionError\<close> of a division by zero. The embeddings have one
  dimension, as the data model requires.
\<close>

theorem zero_norm_score_zero:
  assumes "length emb = length db_emb"
    and "np_linalg_norm emb = 0 \<or> np_linalg_norm db_emb = 0"
  shows "similarity False emb db_emb = Inr 0"
  using assms by (auto simp: similarity_def cosine_similarity_def np_dot_def)

text \<open>Witness: the zero vector against \<open>[3, 4]\<close>.\<close>

theorem zero_norm_score_zero_witness:
  "length [0, 0::real] = length [3, 4::real] \<and> np_linalg_norm [0, 0] = 0
   \<and> similarity False [0, 0] [3, 4] = Inr 0"
proof -
  have h1: "length [0, 0::real] = length [3, 4::real]" by simp
  have n: "np_linalg_norm [0, 0] = 0" by (simp add: np_linalg_norm_def)
  then have h2: "np_linalg_norm [0, 0] = 0 \<or> np_linalg_norm [3, 4] = 0" by simp
  from zero_norm_score_zero[OF h1 h2] h1 n show ?thesis by simp
qed

subsection \<open>Bounds in exact arithmetic\<close>

text \<open>
  With exact real arithmetic the standard score of two embeddings of one dimension lies
  in \<open>[-1, 1]\<close> (Cauchy-Schwarz) and a vector of non-zero norm scores exactly 1 against
  itself. These two lemmas describe the formula, not its floating-point evaluation: the
  source rounds the dot product and the norm product to \<^verbatim>\<open>float32\<close> separately, and
  the rounded quotient can leave the interval by one unit in the last place.
\<close>

lemma dot_squared_le:
  fixes a b :: "real list"
  assumes "length a = length b"
  shows "(sum_list (map (\<lambda>(x, y). x * y) (zip a b)))\<^sup>2
       \<le> sum_list (map (\<lambda>x. x * x) a) * sum_list (map (\<lambda>x. x * x) b)"
  using assms
proof (induction a b rule: list_induct2)
  case Nil
  then show ?case by simp
next
  case (Cons x xs y ys)
  define S where "S = sum_list (map (\<lambda>(x, y). x * y) (zip xs ys))"
  define A where "A = sum_list (map (\<lambda>x. x * x) xs)"
  define B where "B = sum_list (map (\<lambda>x. x * x) ys)"
  have A: "0 \<le> A" unfolding A_def by (auto intro!: sum_list_nonneg)
  have B: "0 \<le> B" unfolding B_def by (auto intro!: sum_list_nonneg)
  have IH: "S\<^sup>2 \<le> A * B" using Cons.IH by (simp add: S_def A_def B_def)
  define u where "u = x\<^sup>2 * B"
  define v where "v = y\<^sup>2 * A"
  have uv: "0 \<le> u + v" using A B by (simp add: u_def v_def)
  have "(2 * x * y * S)\<^sup>2 = (4 * (x\<^sup>2 * y\<^sup>2)) * S\<^sup>2"
    by (simp add: power2_eq_square algebra_simps)
  also have "\<dots> \<le> (4 * (x\<^sup>2 * y\<^sup>2)) * (A * B)"
    by (rule mult_left_mono[OF IH]) simp
  also have "\<dots> = 4 * (u * v)" by (simp add: u_def v_def algebra_simps)
  also have "\<dots> \<le> (u + v)\<^sup>2"
    using sum_squares_bound[of u v] by (simp add: power2_sum algebra_simps)
  finally have "2 * x * y * S \<le> u + v" using uv by (rule power2_le_imp_le)
  then have "2 * x * y * S \<le> x\<^sup>2 * B + y\<^sup>2 * A" by (simp add: u_def v_def)
  moreover have "(x * y + S)\<^sup>2 = x\<^sup>2 * y\<^sup>2 + 2 * x * y * S + S\<^sup>2"
    by (simp add: power2_eq_square algebra_simps)
  moreover have "(x * x + A) * (y * y + B) = x\<^sup>2 * y\<^sup>2 + (x\<^sup>2 * B + y\<^sup>2 * A) + A * B"
    by (simp add: power2_eq_square algebra_simps)
  ultimately have "(x * y + S)\<^sup>2 \<le> (x * x + A) * (y * y + B)" using IH by linarith
  then show ?case by (simp add: S_def A_def B_def)
qed

lemma abs_dot_le_norms:
  assumes "length a = length b"
  shows "\<bar>sum_list (map (\<lambda>(x, y). x * y) (zip a b))\<bar> \<le> np_linalg_norm a * np_linalg_norm b"
proof -
  let ?A = "sum_list (map (\<lambda>x. x * x) a)" and ?B = "sum_list (map (\<lambda>x. x * x) b)"
  have A: "0 \<le> ?A" and B: "0 \<le> ?B" by (auto intro!: sum_list_nonneg)
  have "(np_linalg_norm a * np_linalg_norm b)\<^sup>2 = ?A * ?B"
    using A B by (simp add: np_linalg_norm_def power_mult_distrib)
  with dot_squared_le[OF assms]
  have "(sum_list (map (\<lambda>(x, y). x * y) (zip a b)))\<^sup>2 \<le> (np_linalg_norm a * np_linalg_norm b)\<^sup>2"
    by simp
  moreover have "0 \<le> np_linalg_norm a * np_linalg_norm b"
    by (simp add: np_linalg_norm_nonneg)
  ultimately have "\<bar>sum_list (map (\<lambda>(x, y). x * y) (zip a b))\<bar>\<^sup>2 \<le> (np_linalg_norm a * np_linalg_norm b)\<^sup>2"
    and "0 \<le> np_linalg_norm a * np_linalg_norm b" by simp_all
  then show ?thesis by (rule power2_le_imp_le)
qed

lemma exact_cosine_bounds:
  assumes "length a = length b"
  shows "\<exists>s. similarity False a b = Inr s \<and> - 1 \<le> s \<and> s \<le> 1"
proof (cases "np_linalg_norm a * np_linalg_norm b = 0")
  case True
  then show ?thesis using assms
    by (auto simp: similarity_def cosine_similarity_def np_dot_def)
next
  case False
  let ?n = "np_linalg_norm a * np_linalg_norm b"
  let ?d = "sum_list (map (\<lambda>(x, y). x * y) (zip a b))"
  have pos: "0 < ?n" using False np_linalg_norm_nonneg[of a] np_linalg_norm_nonneg[of b]
    by (simp add: zero_less_mult_iff less_le)
  have sim: "similarity False a b = Inr (?d / ?n)"
    using False assms by (simp add: similarity_def cosine_similarity_def np_dot_def py_truediv_def)
  have "\<bar>?d\<bar> \<le> ?n" by (rule abs_dot_le_norms[OF assms])
  then have "- ?n \<le> ?d" "?d \<le> ?n" by simp_all
  then have "- 1 \<le> ?d / ?n" "?d / ?n \<le> 1" using pos by (simp_all add: pos_le_divide_eq pos_divide_le_eq)
  with sim show ?thesis by simp
qed

lemma exact_self_similarity:
  assumes "np_linalg_norm a \<noteq> 0"
  shows "similarity False a a = Inr 1"
proof -
  let ?A = "sum_list (map (\<lambda>x. x * x) a)"
  have A: "0 \<le> ?A" by (auto intro!: sum_list_nonneg)
  have dot: "sum_list (map (\<lambda>(x, y). x * y) (zip a a)) = ?A"
    by (induction a) simp_all
  have n: "np_linalg_norm a * np_linalg_norm a = ?A"
    using A by (simp add: np_linalg_norm_def)
  have "?A \<noteq> 0" using assms by (auto simp: np_linalg_norm_def)
  then show ?thesis
    by (simp add: similarity_def cosine_similarity_def np_dot_def py_truediv_def dot n)
qed

section \<open>Properties of the scan\<close>

lemma track_append: "track b (xs @ ys) = track (track b xs) ys"
  by (induction xs arbitrary: b) auto

lemma track_unchanged:
  "\<forall>t\<in>set T. snd (snd t) \<le> score b \<Longrightarrow> track b T = b"
  by (induction T arbitrary: b) (auto simp: update_best_def)

lemma track_score_ge: "score b \<le> score (track b T)"
proof (induction T arbitrary: b)
  case Nil
  then show ?case by simp
next
  case (Cons t T)
  obtain a bid s where t: "t = (a, bid, s)" by (cases t)
  have "score b \<le> score (update_best b a bid s)" by (simp add: update_best_def)
  also have "\<dots> \<le> score (track (update_best b a bid s) T)" by (rule Cons.IH)
  finally show ?case by (simp add: t)
qed

lemma track_score: "score (track b T) = Max (insert (score b) (set (map (\<lambda>t. snd (snd t)) T)))"
proof (induction T arbitrary: b)
  case Nil
  then show ?case by simp
next
  case (Cons t T)
  obtain a bid s where t: "t = (a, bid, s)" by (cases t)
  have sc: "score (update_best b a bid s) = max (score b) s"
    by (simp add: update_best_def max_def)
  have "score (track b (t # T)) = Max (insert (max (score b) s) (set (map (\<lambda>t. snd (snd t)) T)))"
    by (simp add: t Cons.IH sc)
  also have "\<dots> = Max (insert (score b) (insert s (set (map (\<lambda>t. snd (snd t)) T))))"
    by (cases "set (map (\<lambda>t. snd (snd t)) T) = {}") (simp_all add: max.assoc)
  finally show ?case by (simp add: t)
qed

lemma track_first_max:
  assumes "i < length T" and "score b < snd (snd (T ! i))"
    and "\<forall>j<i. snd (snd (T ! j)) < snd (snd (T ! i))"
    and "\<forall>j<length T. snd (snd (T ! j)) \<le> snd (snd (T ! i))"
  shows "track b T = \<lparr>book_id = Some (fst (snd (T ! i))), score = snd (snd (T ! i)), rotation = fst (T ! i)\<rparr>"
  using assms
proof (induction T arbitrary: b i)
  case Nil
  then show ?case by simp
next
  case (Cons t T)
  obtain a bid s where t: "t = (a, bid, s)" by (cases t)
  show ?case
  proof (cases i)
    case 0
    let ?n = "\<lparr>book_id = Some bid, score = s, rotation = a\<rparr>"
    have upd: "update_best b a bid s = ?n"
      using Cons.prems(2) by (simp add: 0 t update_best_def)
    have "\<forall>u\<in>set T. snd (snd u) \<le> score ?n"
    proof
      fix u assume "u \<in> set T"
      then obtain j where j: "j < length T" "T ! j = u" by (auto simp: in_set_conv_nth)
      from Cons.prems(4) j(1) have "snd (snd ((t # T) ! Suc j)) \<le> snd (snd ((t # T) ! i))" by auto
      then show "snd (snd u) \<le> score ?n" using j(2) by (simp add: 0 t)
    qed
    then have "track ?n T = ?n" by (rule track_unchanged)
    then show ?thesis by (simp add: 0 t upd)
  next
    case (Suc k)
    have k: "k < length T" using Cons.prems(1) Suc by simp
    have s_lt: "s < snd (snd (T ! k))"
      using Cons.prems(3) by (auto simp: Suc t dest: spec[where x=0])
    have b_lt: "score (update_best b a bid s) < snd (snd (T ! k))"
      using Cons.prems(2) s_lt by (simp add: update_best_def Suc)
    have before: "\<forall>j<k. snd (snd (T ! j)) < snd (snd (T ! k))"
    proof (intro allI impI)
      fix j assume "j < k"
      then have "Suc j < i" by (simp add: Suc)
      with Cons.prems(3) have "snd (snd ((t # T) ! Suc j)) < snd (snd ((t # T) ! i))" by blast
      then show "snd (snd (T ! j)) < snd (snd (T ! k))" by (simp add: Suc)
    qed
    have all: "\<forall>j<length T. snd (snd (T ! j)) \<le> snd (snd (T ! k))"
    proof (intro allI impI)
      fix j assume "j < length T"
      then have "Suc j < length (t # T)" by simp
      with Cons.prems(4) have "snd (snd ((t # T) ! Suc j)) \<le> snd (snd ((t # T) ! i))" by blast
      then show "snd (snd (T ! j)) \<le> snd (snd (T ! k))" by (simp add: Suc)
    qed
    from Cons.IH[OF k b_lt before all] show ?thesis by (simp add: Suc t)
  qed
qed

lemma scored_append:
  "length ps = length ss \<Longrightarrow> scored (ps @ ps') (ss @ ss') = scored ps ss @ scored ps' ss'"
  by (simp add: scored_def)

lemma length_scored: "length ps = length ss \<Longrightarrow> length (scored ps ss) = length ss"
  by (simp add: scored_def)

lemma scan_items_Inr:
  "scan_items c a e items (b, acc) = Inr (b', acc') \<Longrightarrow>
   \<exists>ss. length ss = length items
      \<and> (\<forall>m<length items. similarity c e (snd (items ! m)) = Inr (ss ! m))
      \<and> acc' = acc @ ss
      \<and> b' = track b (scored (pairs_of [a] items) ss)"
proof (induction items arbitrary: b acc)
  case Nil
  then show ?case by (simp add: pairs_of_def scored_def)
next
  case (Cons it items)
  obtain bid v where it: "it = (bid, v)" by (cases it)
  from Cons.prems obtain s where s: "similarity c e v = Inr s"
    and rest: "scan_items c a e items (update_best b a bid s, acc @ [s]) = Inr (b', acc')"
    by (auto simp: it split: sum.splits)
  from Cons.IH[OF rest] obtain ss where ss:
    "length ss = length items"
    "\<forall>m<length items. similarity c e (snd (items ! m)) = Inr (ss ! m)"
    "acc' = (acc @ [s]) @ ss"
    "b' = track (update_best b a bid s) (scored (pairs_of [a] items) ss)"
    by blast
  have "\<forall>m<length (it # items). similarity c e (snd ((it # items) ! m)) = Inr ((s # ss) ! m)"
    using s ss(2) by (auto simp: it nth_Cons split: nat.splits)
  moreover have "b' = track b (scored (pairs_of [a] (it # items)) (s # ss))"
    using ss(4) by (simp add: it pairs_of_def scored_def)
  ultimately show ?case using ss(1,3) by (intro exI[of _ "s # ss"]) simp
qed

lemma length_pairs_of: "length (pairs_of as items) = length as * length items"
  by (induction as) (simp_all add: pairs_of_def)

lemma pairs_of_Cons: "pairs_of (a # as) items = pairs_of [a] items @ pairs_of as items"
  by (simp add: pairs_of_def)

lemma pairs_of_nth:
  "k < length as \<Longrightarrow> m < length items \<Longrightarrow>
   pairs_of as items ! (k * length items + m) = (as ! k, fst (items ! m), snd (items ! m))"
proof (induction as arbitrary: k)
  case Nil
  then show ?case by simp
next
  case (Cons a as)
  have len: "length (pairs_of [a] items) = length items" by (simp add: length_pairs_of)
  show ?case
  proof (cases k)
    case 0
    then show ?thesis using Cons.prems(2)
      by (simp add: pairs_of_Cons[of a as] nth_append len) (simp add: pairs_of_def case_prod_unfold)
  next
    case (Suc k')
    then have "k' < length as" using Cons.prems(1) by simp
    from Cons.IH[OF this Cons.prems(2)] show ?thesis
      by (simp add: Suc pairs_of_Cons[of a as] nth_append len)
  qed
qed

lemma scan_angles_Inr:
  "scan_angles c q items as (b, acc) = Inr (b', acc') \<Longrightarrow>
   \<exists>ss. length ss = length (pairs_of as items)
      \<and> (\<forall>k<length as. \<forall>m<length items.
            similarity c (q (as ! k)) (snd (items ! m)) = Inr (ss ! (k * length items + m)))
      \<and> acc' = acc @ ss
      \<and> b' = track b (scored (pairs_of as items) ss)"
proof (induction as arbitrary: b acc)
  case Nil
  then show ?case by (simp add: pairs_of_def scored_def)
next
  case (Cons a as)
  from Cons.prems obtain b1 acc1 where
    first: "scan_items c a (q a) items (b, acc) = Inr (b1, acc1)"
    and rest: "scan_angles c q items as (b1, acc1) = Inr (b', acc')"
    by (auto split: sum.splits)
  from scan_items_Inr[OF first] obtain s1 where s1:
    "length s1 = length items"
    "\<forall>m<length items. similarity c (q a) (snd (items ! m)) = Inr (s1 ! m)"
    "acc1 = acc @ s1"
    "b1 = track b (scored (pairs_of [a] items) s1)"
    by blast
  from Cons.IH[OF rest] obtain s2 where s2:
    "length s2 = length (pairs_of as items)"
    "\<forall>k<length as. \<forall>m<length items.
        similarity c (q (as ! k)) (snd (items ! m)) = Inr (s2 ! (k * length items + m))"
    "acc' = acc1 @ s2"
    "b' = track b1 (scored (pairs_of as items) s2)"
    by blast
  have len1: "length (pairs_of [a] items) = length s1" by (simp add: length_pairs_of s1(1))
  have "length (s1 @ s2) = length (pairs_of (a # as) items)"
    using s1(1) s2(1) by (simp add: length_pairs_of)
  moreover have "\<forall>k<length (a # as). \<forall>m<length items.
      similarity c (q ((a # as) ! k)) (snd (items ! m)) = Inr ((s1 @ s2) ! (k * length items + m))"
  proof (intro allI impI)
    fix k m assume k: "k < length (a # as)" and m: "m < length items"
    show "similarity c (q ((a # as) ! k)) (snd (items ! m)) = Inr ((s1 @ s2) ! (k * length items + m))"
    proof (cases k)
      case 0
      then show ?thesis using s1(1,2) m by (simp add: nth_append)
    next
      case (Suc k')
      then have "k' < length as" using k by simp
      with s2(2) m have "similarity c (q (as ! k')) (snd (items ! m)) = Inr (s2 ! (k' * length items + m))"
        by blast
      then show ?thesis using s1(1) by (simp add: Suc nth_append)
    qed
  qed
  moreover have "acc' = acc @ (s1 @ s2)" using s1(3) s2(3) by simp
  moreover have "b' = track b (scored (pairs_of (a # as) items) (s1 @ s2))"
    using s1(4) s2(4) len1 by (simp add: pairs_of_Cons[of a as] scored_append track_append)
  ultimately show ?case by blast
qed

lemma scan_Inr:
  assumes "scan c q items = Inr (b, scores)"
  shows "length scores = 4 * length items"
    and "\<forall>k<4. \<forall>m<length items.
            similarity c (q (angles ! k)) (snd (items ! m)) = Inr (scores ! (k * length items + m))"
    and "b = track initial_best (scored (scan_order items) scores)"
proof -
  from assms have "scan_angles c q items angles (initial_best, []) = Inr (b, scores)"
    by (simp add: scan_def)
  from scan_angles_Inr[OF this] obtain ss where ss:
    "length ss = length (pairs_of angles items)"
    "\<forall>k<length angles. \<forall>m<length items.
        similarity c (q (angles ! k)) (snd (items ! m)) = Inr (ss ! (k * length items + m))"
    "scores = [] @ ss"
    "b = track initial_best (scored (pairs_of angles items) ss)"
    by blast
  have so: "scan_order items = pairs_of angles items" by (simp add: scan_order_def pairs_of_def)
  have la: "length angles = 4" by (simp add: angles_def)
  show "length scores = 4 * length items" using ss(1,3) by (simp add: length_pairs_of la)
  show "\<forall>k<4. \<forall>m<length items.
            similarity c (q (angles ! k)) (snd (items ! m)) = Inr (scores ! (k * length items + m))"
    using ss(2,3) la by simp
  show "b = track initial_best (scored (scan_order items) scores)" using ss(3,4) so by simp
qed

lemma scored_nth:
  "length ps = length ss \<Longrightarrow> i < length ss \<Longrightarrow>
   scored ps ss ! i = (fst (ps ! i), fst (snd (ps ! i)), ss ! i)"
  by (simp add: scored_def case_prod_unfold)

lemma scored_scores: "length ps = length ss \<Longrightarrow> map (\<lambda>t. snd (snd t)) (scored ps ss) = ss"
  by (auto simp: scored_def case_prod_unfold intro!: nth_equalityI)

lemma length_scan_order: "length (scan_order items) = 4 * length items"
  by (simp add: scan_order_def angles_def)

lemma scan_order_nth:
  "k < 4 \<Longrightarrow> m < length items \<Longrightarrow>
   scan_order items ! (k * length items + m) = (angles ! k, fst (items ! m), snd (items ! m))"
  using pairs_of_nth[of k angles m items] by (simp add: scan_order_def pairs_of_def angles_def)

lemma first_index_of_max:
  assumes "xs \<noteq> []"
  shows "\<exists>i<length xs. xs ! i = Max (set xs) \<and> (\<forall>j<i. xs ! j < xs ! i)"
proof -
  have "Max (set xs) \<in> set xs" using assms by simp
  then obtain ys zs where d: "xs = ys @ Max (set xs) # zs" "Max (set xs) \<notin> set ys"
    by (blast dest: split_list_first)
  have i: "length ys < length xs" by (subst d(1)) simp
  have at: "xs ! length ys = Max (set xs)" by (subst d(1)) simp
  have "\<forall>j<length ys. xs ! j < xs ! length ys"
  proof (intro allI impI)
    fix j assume j: "j < length ys"
    then have eq: "xs ! j = ys ! j" by (subst d(1)) (simp add: nth_append)
    have "ys ! j \<in> set ys" using j by simp
    then have "ys ! j \<noteq> Max (set xs)" using d(2) by auto
    moreover have "xs ! j \<le> Max (set xs)" using j i by (intro Max_ge) auto
    ultimately show "xs ! j < xs ! length ys" using eq at by simp
  qed
  with i at show ?thesis by blast
qed

lemma scan_best_first_max:
  assumes scan: "scan c q items = Inr (b, scores)"
    and i: "i < length scores"
    and mx: "scores ! i = Max (set scores)"
    and first: "\<forall>j<i. scores ! j < scores ! i"
    and above: "- 1 < scores ! i"
  shows "b = \<lparr>book_id = Some (fst (snd (scan_order items ! i))), score = scores ! i,
              rotation = fst (scan_order items ! i)\<rparr>"
proof -
  let ?T = "scored (scan_order items) scores"
  have len: "length (scan_order items) = length scores"
    using scan_Inr(1)[OF scan] by (simp add: length_scan_order)
  have lenT: "length ?T = length scores" by (simp add: length_scored len)
  have nth: "\<And>j. j < length scores \<Longrightarrow> snd (snd (?T ! j)) = scores ! j"
    by (simp add: scored_nth len)
  have b: "b = track initial_best ?T" by (rule scan_Inr(3)[OF scan])
  have 1: "i < length ?T" using i lenT by simp
  have 2: "score initial_best < snd (snd (?T ! i))" using above i by (simp add: nth initial_best_def)
  have 3: "\<forall>j<i. snd (snd (?T ! j)) < snd (snd (?T ! i))" using first i by (simp add: nth)
  have 4: "\<forall>j<length ?T. snd (snd (?T ! j)) \<le> snd (snd (?T ! i))"
  proof (intro allI impI)
    fix j assume "j < length ?T"
    then have j: "j < length scores" using lenT by simp
    then have "scores ! j \<le> Max (set scores)" by (intro Max_ge) auto
    then show "snd (snd (?T ! j)) \<le> snd (snd (?T ! i))" using j i mx by (simp add: nth)
  qed
  from track_first_max[OF 1 2 3 4] show ?thesis
    using i by (simp add: b scored_nth len)
qed

lemma scan_best_score:
  assumes scan: "scan c q items = Inr (b, scores)"
  shows "score b = Max (insert (- 1) (set scores))"
proof -
  have len: "length (scan_order items) = length scores"
    using scan_Inr(1)[OF scan] by (simp add: length_scan_order)
  show ?thesis
    by (simp add: scan_Inr(3)[OF scan] track_score scored_scores len initial_best_def)
qed

lemma scan_best_sentinel:
  assumes scan: "scan c q items = Inr (b, scores)" and low: "\<forall>s\<in>set scores. s \<le> - 1"
  shows "b = initial_best"
proof -
  have len: "length (scan_order items) = length scores"
    using scan_Inr(1)[OF scan] by (simp add: length_scan_order)
  have "\<forall>t\<in>set (scored (scan_order items) scores). snd (snd t) \<le> score initial_best"
  proof
    fix t assume "t \<in> set (scored (scan_order items) scores)"
    then have "snd (snd t) \<in> set (map (\<lambda>t. snd (snd t)) (scored (scan_order items) scores))" by simp
    then have "snd (snd t) \<in> set scores" by (simp only: scored_scores[OF len])
    with low show "snd (snd t) \<le> score initial_best" by (simp add: initial_best_def)
  qed
  then show ?thesis by (simp add: scan_Inr(3)[OF scan] track_unchanged)
qed

lemma first_maximal_pair_kept:
  assumes "scan c q items = Inr (b, scores)"
    and "k < 4" and "m < length items"
    and "scores ! (k * length items + m) = Max (set scores)"
    and "\<forall>j < k * length items + m. scores ! j < Max (set scores)"
    and "- 1 < Max (set scores)"
  shows "similarity c (q (angles ! k)) (snd (items ! m)) = Inr (Max (set scores))
       \<and> book_id b = Some (fst (items ! m)) \<and> rotation b = angles ! k \<and> score b = Max (set scores)"
proof -
  let ?i = "k * length items + m"
  have len: "length scores = 4 * length items" by (rule scan_Inr(1)[OF assms(1)])
  have "?i < k * length items + length items" using assms(3) by simp
  also have "\<dots> = Suc k * length items" by simp
  also have "\<dots> \<le> 4 * length items" using assms(2) by (intro mult_le_mono1) simp
  finally have i: "?i < length scores" by (simp add: len)
  have sim: "similarity c (q (angles ! k)) (snd (items ! m)) = Inr (scores ! ?i)"
    using scan_Inr(2)[OF assms(1)] assms(2,3) by blast
  have "b = \<lparr>book_id = Some (fst (snd (scan_order items ! ?i))), score = scores ! ?i,
              rotation = fst (scan_order items ! ?i)\<rparr>"
    using assms(4,5,6) by (intro scan_best_first_max[OF assms(1) i]) simp_all
  then show ?thesis using sim assms(4) by (simp add: scan_order_nth[OF assms(2,3)])
qed

text \<open>
  C4 (amended). The running best changes only on a strictly greater score. Hence, when
  the pair (rotation \<open>k\<close>, candidate \<open>m\<close>) attains the maximal score, every pair scanned
  before it (rotation order 0, 90, 180, 270, then store order) scores strictly less, and
  that maximum is above the initial sentinel \<open>-1\<close>, the identifier and rotation kept are
  those of this pair. When no score is above \<open>-1\<close> the tracked identifier stays
  \<open>None\<close> and the rotation 0.
\<close>

theorem first_maximal_pair_wins:
  assumes "scan c q items = Inr (b, scores)"
  shows "(k < 4 \<and> m < length items
          \<and> scores ! (k * length items + m) = Max (set scores)
          \<and> (\<forall>j < k * length items + m. scores ! j < Max (set scores))
          \<and> - 1 < Max (set scores) \<longrightarrow>
            similarity c (q (angles ! k)) (snd (items ! m)) = Inr (Max (set scores))
            \<and> book_id b = Some (fst (items ! m)) \<and> rotation b = angles ! k
            \<and> score b = Max (set scores))
       \<and> ((\<forall>s\<in>set scores. s \<le> - 1) \<longrightarrow> book_id b = None \<and> rotation b = 0)"
proof -
  have first: "k < 4 \<and> m < length items
          \<and> scores ! (k * length items + m) = Max (set scores)
          \<and> (\<forall>j < k * length items + m. scores ! j < Max (set scores))
          \<and> - 1 < Max (set scores) \<longrightarrow>
            similarity c (q (angles ! k)) (snd (items ! m)) = Inr (Max (set scores))
            \<and> book_id b = Some (fst (items ! m)) \<and> rotation b = angles ! k
            \<and> score b = Max (set scores)"
    using first_maximal_pair_kept[OF assms, of k m] by blast
  have sentinel: "(\<forall>s\<in>set scores. s \<le> - 1) \<longrightarrow> book_id b = None \<and> rotation b = 0"
    using scan_best_sentinel[OF assms] by (simp add: initial_best_def)
  from first sentinel show ?thesis by blast
qed

lemmas scan_eval = scan_def angles_def similarity_def cosine_similarity_def np_dot_def
  np_linalg_norm_def np_subtract_def py_truediv_def update_best_def initial_best_def
  same_embedding_def upright_at_def

text \<open>
  Witness: two candidates with the same vector, the query matching only at 90 degrees.
  Pairs 2 and 3 tie at the maximum 1; the first of them (rotation 90, identifier 7) is kept.
\<close>

theorem first_maximal_pair_wins_witness:
  "scan False (upright_at 90) [(7, [1]), (8, [1])]
     = Inr (\<lparr>book_id = Some 7, score = 1, rotation = 90\<rparr>, [- 1, - 1, 1, 1, - 1, - 1, - 1, - 1])
   \<and> book_id \<lparr>book_id = Some 7, score = 1, rotation = 90\<rparr> = Some (fst ([(7, [1]), (8, [1::real])] ! 0))
   \<and> rotation \<lparr>book_id = Some 7, score = 1, rotation = 90\<rparr> = angles ! 1"
proof -
  let ?items = "[(7::int, [1::real]), (8, [1])]"
  let ?scores = "[- 1, - 1, 1, 1, - 1, - 1, - 1, - 1::real]"
  let ?b = "\<lparr>book_id = Some 7, score = 1, rotation = 90\<rparr>"
  have h1: "scan False (upright_at 90) ?items = Inr (?b, ?scores)"
    by (simp add: scan_eval)
  have h2: "(1::nat) < 4" by simp
  have h3: "0 < length ?items" by simp
  have h4: "?scores ! (1 * length ?items + 0) = Max (set ?scores)" by simp
  have h5: "\<forall>j < 1 * length ?items + 0. ?scores ! j < Max (set ?scores)"
    by (simp add: numeral_2_eq_2 All_less_Suc)
  have h6: "- 1 < Max (set ?scores)" by simp
  from first_maximal_pair_wins[OF h1, of 1 0] h2 h3 h4 h5 h6
  have "book_id ?b = Some (fst (?items ! 0)) \<and> rotation ?b = angles ! 1" by blast
  with h1 show ?thesis by blast
qed

text \<open>
  Counterexample to C4 as stated: under the standard profile the query \<open>[1]\<close> scores
  exactly \<open>-1\<close> against both candidates at every rotation. All eight pairs tie at the
  maximum, the first of them is (rotation 0, identifier 7), yet no score is strictly
  greater than the sentinel and the tracked identifier stays \<open>None\<close>.
\<close>

theorem tie_break_sentinel_counterexample:
  "scan False (same_embedding [1]) [(7, [- 1]), (8, [- 1])]
     = Inr (\<lparr>book_id = None, score = - 1, rotation = 0\<rparr>, [- 1, - 1, - 1, - 1, - 1, - 1, - 1, - 1])"
  by (simp add: scan_eval)

text \<open>
  C10 (amended). After the scan of a non-empty candidate list with every score at least
  \<open>-1\<close>: there are \<open>4 * N\<close> scores, the tracked score is their maximum, and, when
  that maximum is above \<open>-1\<close>, the tracked identifier and rotation are those of the first
  pair attaining it (all earlier scores strictly lower); when the maximum is \<open>-1\<close> the
  tracked best is still the initial one, with no identifier.
\<close>
theorem scan_invariant:
  assumes "items \<noteq> []" and "scan c q items = Inr (b, scores)" and "\<forall>s\<in>set scores. - 1 \<le> s"
  shows "length scores = 4 * length items \<and> score b = Max (set scores)
       \<and> (- 1 < Max (set scores) \<longrightarrow>
            (\<exists>i<length scores. scores ! i = Max (set scores) \<and> (\<forall>j<i. scores ! j < scores ! i)
               \<and> book_id b = Some (fst (snd (scan_order items ! i)))
               \<and> rotation b = fst (scan_order items ! i)))
       \<and> (Max (set scores) = - 1 \<longrightarrow> b = initial_best)"
proof -
  have len: "length scores = 4 * length items" by (rule scan_Inr(1)[OF assms(2)])
  then have ne: "scores \<noteq> []" using assms(1) by auto
  have "Max (insert (- 1) (set scores)) = max (- 1) (Max (set scores))"
    using ne by simp
  moreover have "Max (set scores) \<in> set scores" using ne by simp
  then have "- 1 \<le> Max (set scores)" using assms(3) by blast
  ultimately have sc: "score b = Max (set scores)"
    by (simp add: scan_best_score[OF assms(2)])
  have first: "- 1 < Max (set scores) \<longrightarrow>
            (\<exists>i<length scores. scores ! i = Max (set scores) \<and> (\<forall>j<i. scores ! j < scores ! i)
               \<and> book_id b = Some (fst (snd (scan_order items ! i)))
               \<and> rotation b = fst (scan_order items ! i))"
  proof
    assume above: "- 1 < Max (set scores)"
    from first_index_of_max[OF ne] obtain i where i:
      "i < length scores" "scores ! i = Max (set scores)" "\<forall>j<i. scores ! j < scores ! i"
      by blast
    have "b = \<lparr>book_id = Some (fst (snd (scan_order items ! i))), score = scores ! i,
              rotation = fst (scan_order items ! i)\<rparr>"
      using above i by (intro scan_best_first_max[OF assms(2)]) simp_all
    with i show "\<exists>i<length scores. scores ! i = Max (set scores) \<and> (\<forall>j<i. scores ! j < scores ! i)
               \<and> book_id b = Some (fst (snd (scan_order items ! i)))
               \<and> rotation b = fst (scan_order items ! i)"
      by (intro exI[of _ i]) simp
  qed
  have sentinel: "Max (set scores) = - 1 \<longrightarrow> b = initial_best"
  proof
    assume "Max (set scores) = - 1"
    moreover have "\<forall>s\<in>set scores. s \<le> Max (set scores)" by simp
    ultimately have "\<forall>s\<in>set scores. s \<le> - 1" by simp
    then show "b = initial_best" by (rule scan_best_sentinel[OF assms(2)])
  qed
  from len sc first sentinel show ?thesis by blast
qed

text \<open>
  Witness: one candidate, the query matching only at 180 degrees, cartoon profile.
\<close>

theorem scan_invariant_witness:
  "scan True (upright_at 180) [(5, [1])]
       = Inr (\<lparr>book_id = Some 5, score = 1, rotation = 180\<rparr>, [- 3 / 5, - 3 / 5, 1, - 3 / 5])
   \<and> length [- 3 / 5, - 3 / 5, 1, - 3 / 5 :: real] = 4 * length [(5::int, [1::real])]
   \<and> score \<lparr>book_id = Some 5, score = 1, rotation = 180\<rparr> = Max (set [- 3 / 5, - 3 / 5, 1, - 3 / 5])"
proof -
  let ?items = "[(5::int, [1::real])]"
  let ?scores = "[- 3 / 5, - 3 / 5, 1, - 3 / 5 :: real]"
  let ?b = "\<lparr>book_id = Some 5, score = 1, rotation = 180\<rparr>"
  have h1: "?items \<noteq> []" by simp
  have h2: "scan True (upright_at 180) ?items = Inr (?b, ?scores)"
    by (simp add: scan_eval)
  have h3: "\<forall>s\<in>set ?scores. - 1 \<le> s" by simp
  from scan_invariant[OF h1 h2 h3]
  have "length ?scores = 4 * length ?items \<and> score ?b = Max (set ?scores)" by blast
  with h2 show ?thesis by blast
qed

text \<open>
  Counterexample to C10 as stated: one candidate opposite to the query at every rotation.
  The list is non-empty and every score is at least \<open>-1\<close>, but the tracked identifier
  is \<open>None\<close>: it belongs to no scanned pair.
\<close>

theorem scan_invariant_counterexample:
  "scan False (same_embedding [0, 1]) [(5, [0, - 1])]
     = Inr (\<lparr>book_id = None, score = - 1, rotation = 0\<rparr>, [- 1, - 1, - 1, - 1])"
  by (simp add: scan_eval)

section \<open>Properties of the score gap\<close>








section \<open>Properties of the classification\<close>

lemma thresholds_spec: "thresholds c = (HIGH c, LOW c, MIN_GAP c)"
  by (simp add: thresholds_def HIGH_def LOW_def MIN_GAP_def)

lemma LOW_above_sentinel: "- 1 < LOW c"
  by (simp add: LOW_def)

lemma LOW_le_HIGH: "LOW c \<le> HIGH c"
  by (simp add: LOW_def HIGH_def)

text \<open>
  What the scan leaves in the tracked best: either the initial best, or the identifier
  of a stored candidate. With non-zero identifiers (the \<^verbatim>\<open>books.id\<close> column is a
  SERIAL key) the tracked identifier is true for Python or the score is the sentinel.
\<close>

lemma track_book_id:
  "track b T = b \<or> (\<exists>t\<in>set T. book_id (track b T) = Some (fst (snd t)))"
proof (induction T arbitrary: b)
  case Nil
  then show ?case by simp
next
  case (Cons t T)
  obtain a bid s where t: "t = (a, bid, s)" by (cases t)
  from Cons.IH[of "update_best b a bid s"] show ?case
    by (auto simp: t update_best_def split: if_splits)
qed

lemma scored_ids:
  "t \<in> set (scored ps ss) \<Longrightarrow> \<exists>p\<in>set ps. fst (snd t) = fst (snd p)"
  by (force simp: scored_def dest: set_zip_leftD)

lemma scan_order_ids:
  "p \<in> set (scan_order items) \<Longrightarrow> \<exists>it\<in>set items. fst (snd p) = fst it"
  by (auto simp: scan_order_def)

lemma scan_best_cases:
  assumes "scan c q items = Inr (b, scores)"
  shows "b = initial_best \<or> (\<exists>it\<in>set items. book_id b = Some (fst it))"
proof -
  let ?T = "scored (scan_order items) scores"
  have b: "b = track initial_best ?T" by (rule scan_Inr(3)[OF assms])
  from track_book_id[of initial_best ?T]
  show ?thesis
  proof
    assume "track initial_best ?T = initial_best"
    with b show ?thesis by simp
  next
    assume "\<exists>t\<in>set ?T. book_id (track initial_best ?T) = Some (fst (snd t))"
    then obtain t where t: "t \<in> set ?T" "book_id b = Some (fst (snd t))" using b by auto
    from scored_ids[OF t(1)] obtain p where p: "p \<in> set (scan_order items)" "fst (snd t) = fst (snd p)"
      by blast
    from scan_order_ids[OF p(1)] obtain it where "it \<in> set items" "fst (snd p) = fst it" by blast
    with t(2) p(2) show ?thesis by auto
  qed
qed

lemma scan_best_truthy_or_sentinel:
  assumes "scan c q items = Inr (b, scores)" and "\<forall>it\<in>set items. fst it \<noteq> 0"
  shows "py_truthy (book_id b) \<or> score b = - 1"
  using scan_best_cases[OF assms(1)] assms(2) by (auto simp: initial_best_def)

text \<open>
  C1. For every best score \<open>s\<close>, every gap \<open>g\<close> and both styles, the classifier
  applies the five rules of the specification in order, first match wins, with the
  thresholds of the style: no candidates (no score was computed) gives Unknown;
  \<open>s \<ge> HIGH\<close> and \<open>g \<ge> MIN_GAP\<close> gives HighConfidence; \<open>s \<ge> LOW\<close> and \<open>g \<ge> MIN_GAP\<close>
  gives MediumConfidence; \<open>s \<ge> LOW\<close> gives LowConfidenceUncertain; otherwise Unknown.
  The tracked best is one the scan can leave: it carries an identifier that Python
  counts as true, or it is still at the sentinel score \<open>-1\<close>.
\<close>

theorem classify_first_match_wins:
  assumes "py_truthy (book_id b) \<or> score b = - 1"
  shows "classify c b [] = spec_classification c True (score b) g0
       \<and> (score_gap scores = Some g \<longrightarrow>
            classify c b scores = spec_classification c False (score b) g)"
proof -
  have none: "classify c b [] = unknown_book"
    by (simp add: classify_def thresholds_spec score_gap_def)
  have some: "classify c b scores = spec_classification c False (score b) g"
    if g: "score_gap scores = Some g"
  proof (cases "py_truthy (book_id b)")
    case True
    then show ?thesis
      by (simp add: classify_def thresholds_spec g spec_classification_def)
  next
    case False
    with assms have "score b = - 1" by simp
    then have "\<not> LOW c \<le> score b" "\<not> HIGH c \<le> score b"
      using LOW_above_sentinel[of c] LOW_le_HIGH[of c] by simp_all
    then show ?thesis
      by (simp add: classify_def thresholds_spec g spec_classification_def)
  qed
  from none some show ?thesis by (simp add: spec_classification_def)
qed

text \<open>
  Witness: cartoon style, best score 0.76 and gap 0.13 clear both cartoon thresholds;
  with no score at all the outcome is Unknown.
\<close>

theorem classify_first_match_wins_witness:
  "classify True \<lparr>book_id = Some 7, score = 0.76, rotation = 0\<rparr> [0.76, 0.63] = high_confidence
   \<and> classify True \<lparr>book_id = Some 7, score = 0.76, rotation = 0\<rparr> [] = unknown_book"
proof -
  let ?b = "\<lparr>book_id = Some 7, score = 0.76, rotation = 0\<rparr>"
  have h: "py_truthy (book_id ?b) \<or> score ?b = - 1" by simp
  have g: "score_gap [0.76, 0.63] = Some 0.13"
    by (simp add: score_gap_def py_max_def)
  from classify_first_match_wins[OF h, of True 0 "[0.76, 0.63]" "0.13"] g
  show ?thesis by (simp add: spec_classification_def HIGH_def LOW_def MIN_GAP_def)
qed

section \<open>Style detection and the whole request\<close>

lemma detect_never_raises: "\<exists>is_cartoon. detect_cartoon_book_simple img = Inr is_cartoon"
  by (cases "detect_body img") (auto simp: detect_cartoon_book_simple_def)

lemma np_var_three:
  "np_var [Some r, Some g, Some b] = Some (variance3 r g b)"
  by (simp add: np_var_def variance3_def Let_def power2_eq_square add.assoc)

lemma detect_body_rgb:
  assumes "r \<noteq> []" "g \<noteq> []" "b \<noteq> []"
  shows "detect_body (Array3D (r # g # b # extra))
       = Inr (variance3 (channel_mean r) (channel_mean g) (channel_mean b) > 500)"
  using assms by (simp add: detect_body_def np_mean_def np_var_three channel_mean_def)

text \<open>
  C9. For every input image the style classifier returns a boolean and never raises:
  when the body of its \<^verbatim>\<open>try\<close> block fails it returns false, and on an image with
  three non-empty colour channels it returns whether the variance across the three
  channel means exceeds 500.
\<close>

theorem detect_cartoon_total:
  "(\<exists>is_cartoon. detect_cartoon_book_simple img = Inr is_cartoon)
   \<and> (detect_body img = Inl e \<longrightarrow> detect_cartoon_book_simple img = Inr False)
   \<and> (img = Array3D (r # g # b # extra) \<and> r \<noteq> [] \<and> g \<noteq> [] \<and> b \<noteq> [] \<longrightarrow>
        detect_cartoon_book_simple img
          = Inr (variance3 (channel_mean r) (channel_mean g) (channel_mean b) > 500))"
proof -
  have 1: "\<exists>is_cartoon. detect_cartoon_book_simple img = Inr is_cartoon"
    by (rule detect_never_raises)
  have 2: "detect_body img = Inl e \<longrightarrow> detect_cartoon_book_simple img = Inr False"
    by (simp add: detect_cartoon_book_simple_def)
  have 3: "img = Array3D (r # g # b # extra) \<and> r \<noteq> [] \<and> g \<noteq> [] \<and> b \<noteq> [] \<longrightarrow>
        detect_cartoon_book_simple img
          = Inr (variance3 (channel_mean r) (channel_mean g) (channel_mean b) > 500)"
    by (auto simp: detect_cartoon_book_simple_def detect_body_rgb)
  from 1 2 3 show ?thesis by blast
qed

lemma detect_red: "detect_cartoon_book_simple red_pixel = Inr True"
  by (simp add: red_pixel_def detect_cartoon_book_simple_def detect_body_def np_mean_def np_var_def Let_def)


text \<open>
  Witness: a red pixel has channel means 255, 0, 0 and variance 14450, hence cartoon;
  a single-band (2-D) array makes the body raise \<^verbatim>\<open>IndexError\<close>, hence not cartoon.
\<close>

theorem detect_cartoon_total_witness:
  "detect_cartoon_book_simple red_pixel = Inr True
   \<and> detect_body (Array2D [7, 9]) = Inl IndexError
   \<and> detect_cartoon_book_simple (Array2D [7, 9]) = Inr False"
proof -
  have b: "detect_body (Array2D [7, 9]) = Inl IndexError" by (simp add: detect_body_def)
  have v: "variance3 (channel_mean [255]) (channel_mean [0]) (channel_mean [0]) > 500"
    by (simp add: variance3_def channel_mean_def Let_def power2_eq_square)
  have sh: "red_pixel = Array3D ([255] # [0] # [0] # []) \<and> [255::nat] \<noteq> [] \<and> [0::nat] \<noteq> [] \<and> [0::nat] \<noteq> []"
    by (simp add: red_pixel_def)
  from detect_cartoon_total[of red_pixel IndexError "[255]" "[0]" "[0]" "[]"] sh v
  have "detect_cartoon_book_simple red_pixel = Inr True" by simp
  moreover from detect_cartoon_total[of "Array2D [7, 9]" IndexError] b
  have "detect_cartoon_book_simple (Array2D [7, 9]) = Inr False" by blast
  ultimately show ?thesis using b by blast
qed

lemma real_dict_by_position: "real_dict_getitem row (ByPosition i) = Inl KeyError"
  by (simp add: real_dict_getitem_def)

lemma ensure_table_raises:
  "ensure_table reachable table_exists = Inl (if reachable then KeyError else OperationalError)"
  by (simp add: ensure_table_def real_dict_by_position)

lemma identify_is_error:
  "identify_book_with_rotation_enhanced r
     = Inl (if \<not> clip_loaded r then ClipNotInitialised
            else IdentifyFailed (if db_reachable r then KeyError else OperationalError))"
  by (simp add: identify_book_with_rotation_enhanced_def ensure_table_raises)

text \<open>
  C2 (amended). When the candidate store holds no record the matching operation yields an
  error result, not the Unknown outcome, whatever the style. Once the upload is read and
  decoded and the store is loaded (lines 500--533), that error is "no book records in the
  database" (lines 535--536), returned before any threshold is chosen or compared.
\<close>

theorem empty_store_is_error:
  assumes "db_items r = []"
  shows "(\<exists>e. identify_book_with_rotation_enhanced r = Inl e)
       \<and> (has_read r \<and> db_reachable r \<and> decode_error r = None \<and> pil_img r = Inr img \<longrightarrow>
            identify_after_ensure_table r = Inl NoBookRecords)"
proof -
  have 1: "\<exists>e. identify_book_with_rotation_enhanced r = Inl e"
    by (simp add: identify_is_error)
  obtain c where c: "detect_cartoon_book_simple img = Inr c" using detect_never_raises by blast
  have 2: "has_read r \<and> db_reachable r \<and> decode_error r = None \<and> pil_img r = Inr img \<longrightarrow>
            identify_after_ensure_table r = Inl NoBookRecords"
    using assms c by (simp add: identify_after_ensure_table_def)
  from 1 2 show ?thesis by blast
qed

text \<open>Witness: an empty store and an image the style classifier takes for a cartoon.\<close>

theorem empty_store_is_error_witness:
  "db_items empty_store_cartoon_request = []
   \<and> detect_cartoon_book_simple red_pixel = Inr True
   \<and> identify_after_ensure_table empty_store_cartoon_request = Inl NoBookRecords"
proof -
  have h: "db_items empty_store_cartoon_request = []"
    and g: "has_read empty_store_cartoon_request \<and> db_reachable empty_store_cartoon_request
        \<and> decode_error empty_store_cartoon_request = None
        \<and> pil_img empty_store_cartoon_request = Inr red_pixel"
    by (simp_all add: empty_store_cartoon_request_def)
  from empty_store_is_error[OF h, of red_pixel] g
  have "identify_after_ensure_table empty_store_cartoon_request = Inl NoBookRecords" by blast
  with h detect_red show ?thesis by blast
qed

text \<open>
  Counterexample to C2 as stated: with the model loaded, the database reachable and an
  empty store, the result is an error (here the one of the exception handler, raised by
  the subscript of line 271), not an unknown-book response.
\<close>

theorem empty_store_unknown_counterexample:
  "identify_book_with_rotation_enhanced empty_store_request = Inl (IdentifyFailed KeyError)"
  by (simp add: identify_is_error empty_store_request_def)






end
